theory Spec2Isabelle
  imports Main "HOL-Library.Word"
begin

section \<open>The format-string engine\<close>

text \<open>
  The development follows the source file of \<^verbatim>\<open>namespace fmt\<close> (the implementation behind
  StrFormat.h): the compiler \<^verbatim>\<open>ParseFormat\<close> with its helpers, the evaluator \<^verbatim>\<open>Fmt::Eval\<close>
  and the entry points \<^verbatim>\<open>Format\<close> and \<^verbatim>\<open>FormatTemp\<close>. Every function keeps the name it has
  in the source; the loop of a function \<open>f\<close> is \<open>f_loop\<close>. A function that can stop at
  a \<^verbatim>\<open>CrashIf\<close> or run into undefined behaviour returns a \<open>fault + 'a\<close>; the scanning loop,
  which need not end, returns an \<open>option\<close> of that.
\<close>

subsection \<open>Data\<close>

text \<open>
  Modelled from the spec: \<^verbatim>\<open>enum class Type\<close> is declared in StrFormat.h, which is not
  among the sources. The spec lists the kinds of an instruction (\<open>FormatStr\<close>, \<open>Char\<close>,
  \<open>Int\<close>, \<open>Float\<close>, \<open>String\<close>, \<open>Any\<close>) and of an argument (\<open>None\<close>, \<open>Char\<close>, \<open>Int\<close>,
  \<open>Float\<close>, \<open>Double\<close>, \<open>String\<close>, \<open>WideString\<close>); the enumerators below are the nine
  names that the source uses for them. They carry a \<open>T\<close> prefix because \<open>None\<close>,
  \<open>Char\<close> and \<open>Int\<close> are taken in HOL.
\<close>

datatype Type = TFormatStr | TChar | TInt | TFloat | TDouble | TStr | TWStr | TAny | TNone

text \<open>
  Modelled from the spec: \<^verbatim>\<open>struct Arg\<close> is declared in StrFormat.h, which is not among the
  sources. The spec has it as a tagged union over \<open>None\<close>, \<open>Char\<close>, \<open>Int\<close>, \<open>Float\<close>,
  \<open>Double\<close>, \<open>String\<close> and \<open>WideString\<close> that holds exactly one payload; \<^verbatim>\<open>Eval\<close> reads
  the tag \<^verbatim>\<open>t\<close> and the members \<^verbatim>\<open>u.c\<close>, \<^verbatim>\<open>u.i\<close> (an \<^verbatim>\<open>i64\<close>, as the source notes),
  \<^verbatim>\<open>u.f\<close>, \<^verbatim>\<open>u.d\<close>, \<^verbatim>\<open>u.s\<close> and \<^verbatim>\<open>u.ws\<close>. A float and a double are kept as their bit
  patterns, a wide string as its 16-bit units.
\<close>

datatype Arg =
    ArgNone
  | ArgChar char
  | ArgInt "64 word"
  | ArgFloat "32 word"
  | ArgDouble "64 word"
  | ArgStr string
  | ArgWStr "16 word list"

fun arg_t :: "Arg \<Rightarrow> Type" where
  "arg_t ArgNone = TNone"
| "arg_t (ArgChar c) = TChar"
| "arg_t (ArgInt i) = TInt"
| "arg_t (ArgFloat f) = TFloat"
| "arg_t (ArgDouble d) = TDouble"
| "arg_t (ArgStr s) = TStr"
| "arg_t (ArgWStr ws) = TWStr"

text \<open>
  \<^verbatim>\<open>struct Inst\<close>. The field \<^verbatim>\<open>t\<close> is called \<open>inst_t\<close> here. The \<^verbatim>\<open>std::string_view sv\<close>
  is a pair of the offset of its first character in the template and its length.
\<close>

record Inst =
  inst_t :: Type
  argNo :: int
  sv :: "nat \<times> nat"

text \<open>
  \<^verbatim>\<open>struct Fmt\<close>. \<open>instructions\<close> is the array \<^verbatim>\<open>Inst instructions[32]\<close>, a list of
  32 entries of which the first \<open>nInst\<close> have been written. The accumulator \<^verbatim>\<open>str::Str res\<close>
  is its text: the spec treats the container as an opaque growable buffer with append
  operations, so \<^verbatim>\<open>Append\<close> and \<^verbatim>\<open>AppendChar\<close> are \<open>@\<close> and \<^verbatim>\<open>Reset\<close> is \<open>[]\<close>. The scratch
  buffer \<^verbatim>\<open>char buf[256]\<close> only carries the text of one number from \<^verbatim>\<open>BufFmt\<close> to
  \<^verbatim>\<open>res.Append\<close> and is not a field of the record.
\<close>

record Fmt =
  isOk :: bool
  format :: string
  instructions :: "Inst list"
  nInst :: nat
  currArgNo :: int
  currPercArgNo :: int
  res :: string

text \<open>
  What a call can do instead of returning: \<open>Crash\<close> is a \<^verbatim>\<open>CrashIf\<close> that fired; the
  others are the undefined behaviours the code can reach: a read behind the end of the
  template or of the argument array, a read before the start of the argument array
  (a negative index), a write behind \<^verbatim>\<open>instructions[31]\<close>, and an overflow of the \<^verbatim>\<open>int\<close>
  that accumulates a positional index.
\<close>

datatype fault = Crash | ReadOutOfBounds | ReadBeforeArray | WriteOutOfBounds | SignedOverflow

text \<open>
  Modelled from the spec: \<^verbatim>\<open>CrashIf\<close> is a macro of BaseUtil.h, which is not among the
  sources. The spec describes it as an assertion of development builds (``also asserting
  in development builds''), and the code repeats each \<^verbatim>\<open>CrashIf(!isOk)\<close> as
  \<^verbatim>\<open>if (!isOk) return false\<close>. The build is the parameter \<open>dbg\<close>: \<open>CrashIf dbg c\<close> says
  whether the process stops at \<^verbatim>\<open>CrashIf(c)\<close>.
\<close>

definition CrashIf :: "bool \<Rightarrow> bool \<Rightarrow> bool" where
  "CrashIf dbg cond = (dbg \<and> cond)"

definition dimof_instructions :: nat where
  "dimof_instructions = 32"

subsection \<open>Reading the template\<close>

definition NUL :: char where
  "NUL = CHR 0x00"

definition backslash :: char where
  "backslash = CHR 0x5C"

text \<open>
  A template \<^verbatim>\<open>const char*\<close> is the list of its characters; the terminating NUL sits at
  index \<open>length s\<close> and nothing behind it belongs to the string. \<open>rd s i\<close> is the read
  \<^verbatim>\<open>s[i]\<close>, \<open>None\<close> where it leaves the string.
\<close>

definition rd :: "string \<Rightarrow> nat \<Rightarrow> char option" where
  "rd s i = (if i < length s then Some (s ! i) else if i = length s then Some NUL else None)"

text \<open>
  Modelled from the spec: \<^verbatim>\<open>str::IsDigit\<close> is declared in another file, which is not
  among the sources; the spec has the digits of a positional directive as the ASCII decimal digits.
\<close>

definition IsDigit :: "char \<Rightarrow> bool" where
  "IsDigit c = (48 \<le> (of_char c :: nat) \<and> (of_char c :: nat) \<le> 57)"

text \<open>The value of a \<^verbatim>\<open>char\<close> in arithmetic: \<^verbatim>\<open>char\<close> is signed on the compilers in use.\<close>

definition char_val :: "char \<Rightarrow> int" where
  "char_val c = sint (of_char c :: 8 word)"

definition INT_MIN :: int where
  "INT_MIN = - (2 ^ 31)"

definition INT_MAX :: int where
  "INT_MAX = 2 ^ 31 - 1"

subsection \<open>The compiler\<close>

fun typeFromChar :: "bool \<Rightarrow> char \<Rightarrow> fault + Type" where
  "typeFromChar dbg c =
     (if c = CHR ''c'' then Inr TChar
      else if c = CHR ''d'' then Inr TInt
      else if c = CHR ''f'' then Inr TFloat
      else if c = CHR ''s'' then Inr TStr
      else if c = CHR ''v'' then Inr TAny
      else if CrashIf dbg True then Inl Crash
      else Inr TNone)"

text \<open>
  \<open>addFormatStr dbg fm s len\<close>: \<open>s\<close> is the offset of the literal run in the template.
  When \<^verbatim>\<open>CrashIf\<close> does not stop it, the write to \<^verbatim>\<open>instructions[nInst]\<close> happens whatever
  \<open>nInst\<close> is.
\<close>

definition addFormatStr :: "bool \<Rightarrow> Fmt \<Rightarrow> nat \<Rightarrow> nat \<Rightarrow> fault + Fmt" where
  "addFormatStr dbg fm s len =
     (if len = 0 then Inr fm
      else if CrashIf dbg (nInst fm \<ge> dimof_instructions) then Inl Crash
      else if nInst fm \<ge> length (instructions fm) then Inl WriteOutOfBounds
      else Inr (fm\<lparr>instructions := (instructions fm)
                      [nInst fm := \<lparr>inst_t = TFormatStr, argNo = - 1, sv = (s, len)\<rparr>],
                    nInst := nInst fm + 1\<rparr>))"

text \<open>
  The loop of \<^verbatim>\<open>parseArgDefPositional\<close>: \<open>f\<close> is the template, \<open>n\<close> the number read so
  far, \<open>s\<close> the position. It returns \<open>n\<close> and the position of the closing brace.
\<close>

function parseArgDefPositional_loop :: "bool \<Rightarrow> string \<Rightarrow> int \<Rightarrow> nat \<Rightarrow> fault + (int \<times> nat)" where
  "parseArgDefPositional_loop dbg f n s =
     (case rd f s of
        None \<Rightarrow> Inl ReadOutOfBounds
      | Some c \<Rightarrow>
          if c = CHR ''}'' then Inr (n, s)
          else if CrashIf dbg (\<not> IsDigit c) then Inl Crash
          else if n * 10 < INT_MIN \<or> INT_MAX < n * 10
                  \<or> n * 10 + (char_val c - 48) < INT_MIN \<or> INT_MAX < n * 10 + (char_val c - 48)
               then Inl SignedOverflow
          else parseArgDefPositional_loop dbg f (n * 10 + (char_val c - 48)) (s + 1))"
  by pat_completeness auto
termination
  by (relation "measure (\<lambda>(dbg, f, n, s). length f + 1 - s)")
     (auto simp: rd_def split: if_splits)

declare parseArgDefPositional_loop.simps [simp del]

definition parseArgDefPositional :: "bool \<Rightarrow> Fmt \<Rightarrow> nat \<Rightarrow> fault + (Fmt \<times> nat)" where
  "parseArgDefPositional dbg fm s =
     (if CrashIf dbg (rd (format fm) s \<noteq> Some (CHR ''{'')) then Inl Crash
      else case parseArgDefPositional_loop dbg (format fm) 0 (s + 1) of
        Inl e \<Rightarrow> Inl e
      | Inr (n, s') \<Rightarrow>
          if nInst fm \<ge> length (instructions fm) then Inl WriteOutOfBounds
          else Inr (fm\<lparr>instructions := (instructions fm)
                          [nInst fm := (instructions fm ! nInst fm)\<lparr>inst_t := TAny, argNo := n\<rparr>],
                        nInst := nInst fm + 1\<rparr>,
                    s' + 1))"

definition parseArgDefPerc :: "bool \<Rightarrow> Fmt \<Rightarrow> nat \<Rightarrow> fault + (Fmt \<times> nat)" where
  "parseArgDefPerc dbg fm s =
     (if CrashIf dbg (rd (format fm) s \<noteq> Some (CHR ''%'')) then Inl Crash
      else case rd (format fm) (s + 1) of
        None \<Rightarrow> Inl ReadOutOfBounds
      | Some c \<Rightarrow>
          (case typeFromChar dbg c of
             Inl e \<Rightarrow> Inl e
           | Inr ty \<Rightarrow>
               if nInst fm \<ge> length (instructions fm) then Inl WriteOutOfBounds
               else Inr (fm\<lparr>instructions := (instructions fm)
                               [nInst fm := (instructions fm ! nInst fm)
                                  \<lparr>inst_t := ty, argNo := currPercArgNo fm\<rparr>],
                             nInst := nInst fm + 1,
                             currPercArgNo := currPercArgNo fm + 1\<rparr>,
                         s + 2)))"

fun hasInstructionWithArgNo_loop :: "Inst list \<Rightarrow> int \<Rightarrow> bool" where
  "hasInstructionWithArgNo_loop [] a = False"
| "hasInstructionWithArgNo_loop (i # insts) a =
     (if argNo i = a then True else hasInstructionWithArgNo_loop insts a)"

text \<open>The loop visits \<^verbatim>\<open>insts[0]\<close> to \<^verbatim>\<open>insts[nInst - 1]\<close>.\<close>

definition hasInstructionWithArgNo :: "Inst list \<Rightarrow> nat \<Rightarrow> int \<Rightarrow> bool" where
  "hasInstructionWithArgNo insts n a = hasInstructionWithArgNo_loop (take n insts) a"

fun validArgTypes :: "Type \<Rightarrow> Type \<Rightarrow> bool" where
  "validArgTypes instType argType =
     (if instType = TAny \<or> instType = TFormatStr then True
      else if instType = TChar then argType = TChar
      else if instType = TInt then argType = TInt
      else if instType = TFloat then argType = TFloat \<or> argType = TDouble
      else if instType = TStr then argType = TStr \<or> argType = TWStr
      else False)"

text \<open>
  The scanning loop of \<^verbatim>\<open>ParseFormat\<close>, \<^verbatim>\<open>while (*fmt)\<close>: \<open>fmt\<close> and \<open>start\<close> are
  positions in the template \<open>format fm\<close>. The loop is a partial function: \<open>None\<close> is a
  loop that does not end. It returns the state and the two positions at the end of
  the template.
\<close>

partial_function (option) ParseFormat_loop ::
  "bool \<Rightarrow> Fmt \<Rightarrow> nat \<Rightarrow> nat \<Rightarrow> (fault + (Fmt \<times> nat \<times> nat)) option" where
  "ParseFormat_loop dbg fm fmt start =
     (case rd (format fm) fmt of
        None \<Rightarrow> Some (Inl ReadOutOfBounds)
      | Some c \<Rightarrow>
          if c = NUL then Some (Inr (fm, fmt, start))
          else if c = backslash then
            (case rd (format fm) (fmt + 1) of
               None \<Rightarrow> Some (Inl ReadOutOfBounds)
             | Some c1 \<Rightarrow>
                 if c1 = CHR ''{'' then
                   (case addFormatStr dbg fm start (fmt - start) of
                      Inl e \<Rightarrow> Some (Inl e)
                    | Inr fm1 \<Rightarrow> ParseFormat_loop dbg fm1 (fmt + 2) (fmt + 1))
                 else ParseFormat_loop dbg fm fmt start)
          else if c = CHR ''{'' then
            (case addFormatStr dbg fm start (fmt - start) of
               Inl e \<Rightarrow> Some (Inl e)
             | Inr fm1 \<Rightarrow>
                 (case parseArgDefPositional dbg fm1 fmt of
                    Inl e \<Rightarrow> Some (Inl e)
                  | Inr (fm2, fmt') \<Rightarrow> ParseFormat_loop dbg fm2 fmt' fmt'))
          else if c = CHR ''%'' then
            (case rd (format fm) (fmt + 1) of
               None \<Rightarrow> Some (Inl ReadOutOfBounds)
             | Some c1 \<Rightarrow>
                 if c1 = CHR ''%'' then
                   (case addFormatStr dbg fm start (fmt - start) of
                      Inl e \<Rightarrow> Some (Inl e)
                    | Inr fm1 \<Rightarrow> ParseFormat_loop dbg fm1 (fmt + 2) (fmt + 1))
                 else
                   (case addFormatStr dbg fm start (fmt - start) of
                      Inl e \<Rightarrow> Some (Inl e)
                    | Inr fm1 \<Rightarrow>
                        (case parseArgDefPerc dbg fm1 fmt of
                           Inl e \<Rightarrow> Some (Inl e)
                         | Inr (fm2, fmt') \<Rightarrow> ParseFormat_loop dbg fm2 fmt' fmt')))
          else ParseFormat_loop dbg fm (fmt + 1) start)"

declare ParseFormat_loop.simps [code]

text \<open>The first loop after the scan: the largest \<open>argNo\<close> of an instruction that is not a literal.\<close>

fun maxArgNo_loop :: "Inst list \<Rightarrow> int \<Rightarrow> int" where
  "maxArgNo_loop [] maxArgNo = maxArgNo"
| "maxArgNo_loop (i # insts) maxArgNo =
     (if inst_t i = TFormatStr then maxArgNo_loop insts maxArgNo
      else if argNo i > maxArgNo then maxArgNo_loop insts (argNo i)
      else maxArgNo_loop insts maxArgNo)"

text \<open>The second loop: \<^verbatim>\<open>for (int i = 0; i <= maxArgNo; i++)\<close>.\<close>

function coverage_loop :: "bool \<Rightarrow> Fmt \<Rightarrow> int \<Rightarrow> int \<Rightarrow> fault + bool" where
  "coverage_loop dbg fm i maxArgNo =
     (if i \<le> maxArgNo then
        (let ok = hasInstructionWithArgNo (instructions fm) (nInst fm) i in
         if CrashIf dbg (\<not> ok) then Inl Crash
         else if \<not> ok then Inr False
         else coverage_loop dbg fm (i + 1) maxArgNo)
      else Inr True)"
  by pat_completeness auto
termination
  by (relation "measure (\<lambda>(dbg, fm, i, maxArgNo). nat (maxArgNo + 1 - i))") auto

declare coverage_loop.simps [simp del]

text \<open>
  The part of \<^verbatim>\<open>ParseFormat\<close> after the scan (lines 163 to 184): \<open>maxArgNo\<close> starts at
  \<open>currArgNo\<close>, the first loop raises it to the largest \<open>argNo\<close> of a directive, the
  second loop looks for an instruction for each index from 0 to \<open>maxArgNo\<close>.
\<close>

definition ParseFormat_validate :: "bool \<Rightarrow> Fmt \<Rightarrow> fault + bool" where
  "ParseFormat_validate dbg fm =
     (let maxArgNo = maxArgNo_loop (take (nInst fm) (instructions fm)) (currArgNo fm) in
      coverage_loop dbg fm 0 maxArgNo)"

text \<open>
  \<open>ParseFormat dbg fm s\<close> returns the boolean of the source and the state \<^verbatim>\<open>o\<close> it leaves.
\<close>

definition ParseFormat :: "bool \<Rightarrow> Fmt \<Rightarrow> string \<Rightarrow> (fault + (bool \<times> Fmt)) option" where
  "ParseFormat dbg fm0 s =
     (let fm = fm0\<lparr>format := s, nInst := 0, currPercArgNo := 0, currArgNo := 0, res := []\<rparr> in
      case ParseFormat_loop dbg fm 0 0 of
        None \<Rightarrow> None
      | Some (Inl e) \<Rightarrow> Some (Inl e)
      | Some (Inr (fm1, fmt, start)) \<Rightarrow>
          (case addFormatStr dbg fm1 start (fmt - start) of
             Inl e \<Rightarrow> Some (Inl e)
           | Inr fm2 \<Rightarrow>
               (case ParseFormat_validate dbg fm2 of
                  Inl e \<Rightarrow> Some (Inl e)
                | Inr b \<Rightarrow> Some (Inr (b, fm2)))))"

text \<open>
  The constructor \<^verbatim>\<open>Fmt::Fmt(const char* fmt)\<close>: the default member initialisers, then
  \<^verbatim>\<open>isOk = ParseFormat(*this, fmt)\<close>. The 32 instructions start with indeterminate \<^verbatim>\<open>t\<close>
  and \<^verbatim>\<open>argNo\<close>; no function reads an entry before writing it, and \<open>Inst0\<close> stands for
  that content.
\<close>

definition Inst0 :: Inst where
  "Inst0 = \<lparr>inst_t = TNone, argNo = 0, sv = (0, 0)\<rparr>"

definition Fmt0 :: Fmt where
  "Fmt0 = \<lparr>isOk = True, format = [], instructions = replicate dimof_instructions Inst0,
           nInst = 0, currArgNo = 0, currPercArgNo = 0, res = []\<rparr>"

definition Fmt_ctor :: "bool \<Rightarrow> string \<Rightarrow> (fault + Fmt) option" where
  "Fmt_ctor dbg s =
     (case ParseFormat dbg Fmt0 s of
        None \<Rightarrow> None
      | Some (Inl e) \<Rightarrow> Some (Inl e)
      | Some (Inr (b, fm)) \<Rightarrow> Some (Inr (fm\<lparr>isOk := b\<rparr>)))"

subsection \<open>The evaluator\<close>

text \<open>
  Modelled from the spec: \<^verbatim>\<open>str::BufFmt\<close> is defined in another file, which is not among
  the sources. With \<^verbatim>\<open>"%d"\<close> it prints an \<^verbatim>\<open>int\<close> as the spec says, in base 10 with no leading
  zeros and a minus sign for negatives. The text has at most 11 characters and fits
  \<^verbatim>\<open>buf[256]\<close>.
\<close>

definition digit :: "nat \<Rightarrow> char" where
  "digit d = ''0123456789'' ! d"

fun dec_nat :: "nat \<Rightarrow> string" where
  "dec_nat n = (if n < 10 then [digit n] else dec_nat (n div 10) @ [digit (n mod 10)])"

declare dec_nat.simps [simp del]

definition dec_int :: "int \<Rightarrow> string" where
  "dec_int i = (if i < 0 then CHR ''-'' # dec_nat (nat (- i)) else dec_nat (nat i))"

definition BufFmt_d :: "32 word \<Rightarrow> string" where
  "BufFmt_d i = dec_int (sint i)"

text \<open>
  The library functions whose result this development does not describe: \<^verbatim>\<open>BufFmt\<close> with
  \<^verbatim>\<open>"%G"\<close> on the \<^verbatim>\<open>float\<close> and on the \<^verbatim>\<open>double\<close> member (floating point), and
  \<^verbatim>\<open>ToUtf8Temp\<close>. None of them is among the sources; \<^verbatim>\<open>Eval\<close> takes them as parameters.
\<close>

record lib =
  BufFmt_G_float :: "32 word \<Rightarrow> string"
  BufFmt_G_double :: "64 word \<Rightarrow> string"
  ToUtf8Temp :: "16 word list \<Rightarrow> string"

text \<open>The characters of the C string that starts a buffer: those before its first NUL.\<close>

definition c_str :: "string \<Rightarrow> string" where
  "c_str s = takeWhile (\<lambda>c. c \<noteq> NUL) s"

text \<open>
  The \<^verbatim>\<open>switch (arg.t)\<close> of \<^verbatim>\<open>Eval\<close>: the text appended to \<^verbatim>\<open>res\<close>. The \<^verbatim>\<open>Int\<close> case
  casts the \<^verbatim>\<open>i64\<close> to \<^verbatim>\<open>int\<close>, which keeps its low 32 bits. The switch has no case
  for \<^verbatim>\<open>Type::None\<close>.
\<close>

fun Eval_switch :: "lib \<Rightarrow> Arg \<Rightarrow> string" where
  "Eval_switch L (ArgChar c) = [c]"
| "Eval_switch L (ArgInt i) = BufFmt_d (ucast i)"
| "Eval_switch L (ArgFloat f) = BufFmt_G_float L f"
| "Eval_switch L (ArgDouble d) = BufFmt_G_double L d"
| "Eval_switch L (ArgStr s) = c_str s"
| "Eval_switch L (ArgWStr ws) = ToUtf8Temp L ws"
| "Eval_switch L ArgNone = []"

text \<open>The characters a literal instruction appends: \<^verbatim>\<open>inst.sv.data()\<close>, \<^verbatim>\<open>inst.sv.size()\<close>.\<close>

definition sv_text :: "string \<Rightarrow> nat \<times> nat \<Rightarrow> string" where
  "sv_text f v = take (snd v) (drop (fst v) f)"

text \<open>
  The loop of \<^verbatim>\<open>Fmt::Eval\<close> from instruction \<open>n\<close> on. \<open>args\<close> is the array of the
  arguments, \<open>nArgs\<close> the count the caller passes. The result is the boolean of the
  source and the state it leaves.
\<close>

function Eval_loop :: "bool \<Rightarrow> lib \<Rightarrow> Arg list \<Rightarrow> int \<Rightarrow> Fmt \<Rightarrow> nat \<Rightarrow> fault + (bool \<times> Fmt)" where
  "Eval_loop dbg L args nArgs fm n =
     (if n < nInst fm then
        if CrashIf dbg (n \<ge> dimof_instructions) then Inl Crash
        else if CrashIf dbg (n \<ge> nInst fm) then Inl Crash
        else if n \<ge> length (instructions fm) then Inl ReadOutOfBounds
        else if CrashIf dbg (argNo (instructions fm ! n) \<ge> nArgs) then Inl Crash
        else if argNo (instructions fm ! n) \<ge> nArgs then Inr (False, fm\<lparr>isOk := False\<rparr>)
        else if inst_t (instructions fm ! n) = TFormatStr then
          Eval_loop dbg L args nArgs
            (fm\<lparr>res := res fm @ sv_text (format fm) (sv (instructions fm ! n))\<rparr>) (n + 1)
        else if argNo (instructions fm ! n) < 0 then Inl ReadBeforeArray
        else if argNo (instructions fm ! n) \<ge> int (length args) then Inl ReadOutOfBounds
        else if CrashIf dbg
                  (\<not> validArgTypes (inst_t (instructions fm ! n))
                       (arg_t (args ! nat (argNo (instructions fm ! n)))))
          then Inl Crash
        else if \<not> validArgTypes (inst_t (instructions fm ! n))
                     (arg_t (args ! nat (argNo (instructions fm ! n))))
          then Inr (False, fm\<lparr>isOk := False\<rparr>)
        else
          Eval_loop dbg L args nArgs
            (fm\<lparr>isOk := True,
                res := res fm @ Eval_switch L (args ! nat (argNo (instructions fm ! n)))\<rparr>) (n + 1)
      else Inr (True, fm))"
  by pat_completeness auto
termination
  by (relation "measure (\<lambda>(dbg, L, args, nArgs, fm, n). nInst fm - n)") auto

declare Eval_loop.simps [simp del]

definition Eval :: "bool \<Rightarrow> lib \<Rightarrow> Fmt \<Rightarrow> Arg list \<Rightarrow> int \<Rightarrow> fault + (bool \<times> Fmt)" where
  "Eval dbg L fm args nArgs =
     (if \<not> isOk fm then Inr (False, fm) else Eval_loop dbg L args nArgs fm 0)"

subsection \<open>The entry points\<close>

text \<open>
  The loop that drops the trailing \<^verbatim>\<open>None\<close> arguments:
  \<^verbatim>\<open>while (nArgs >= 0 && args[nArgs - 1]->t == Type::None) nArgs--\<close>.
\<close>

function trim_loop :: "Arg list \<Rightarrow> int \<Rightarrow> fault + int" where
  "trim_loop args nArgs =
     (if nArgs \<ge> 0 then
        if nArgs - 1 < 0 then Inl ReadBeforeArray
        else if nArgs - 1 \<ge> int (length args) then Inl ReadOutOfBounds
        else if arg_t (args ! nat (nArgs - 1)) = TNone then trim_loop args (nArgs - 1)
        else Inr nArgs
      else Inr nArgs)"
  by pat_completeness auto
termination
  by (relation "measure (\<lambda>(args, nArgs). nat (nArgs + 1))") auto

declare trim_loop.simps [simp del]

text \<open>
  \<^verbatim>\<open>FormatTemp(const char* s, const Arg** args, int nArgs)\<close>. The result \<open>None\<close> is
  \<^verbatim>\<open>nullptr\<close>; the outer \<open>option\<close> is the one of the scanning loop.
\<close>

definition FormatTemp :: "bool \<Rightarrow> lib \<Rightarrow> string \<Rightarrow> Arg list \<Rightarrow> int \<Rightarrow> (fault + string option) option" where
  "FormatTemp dbg L s args nArgs0 =
     (case trim_loop args nArgs0 of
        Inl e \<Rightarrow> Some (Inl e)
      | Inr nArgs \<Rightarrow>
          if nArgs = 0 then Some (Inr (Some (c_str s)))
          else
            (case Fmt_ctor dbg s of
               None \<Rightarrow> None
             | Some (Inl e) \<Rightarrow> Some (Inl e)
             | Some (Inr fm) \<Rightarrow>
                 (case Eval dbg L fm args nArgs of
                    Inl e \<Rightarrow> Some (Inl e)
                  | Inr (ok, fm1) \<Rightarrow> if \<not> ok then Some (Inr None) else Some (Inr (Some (res fm1))))))"

text \<open>
  \<^verbatim>\<open>Format\<close> fills \<^verbatim>\<open>args[6]\<close> with its six arguments and goes on as \<^verbatim>\<open>FormatTemp\<close> does;
  it returns \<^verbatim>\<open>str::Dup(s)\<close> or \<^verbatim>\<open>fmt.res.StealData()\<close>, a copy where \<^verbatim>\<open>FormatTemp\<close>
  returns \<^verbatim>\<open>s\<close> itself or \<^verbatim>\<open>str::DupTemp\<close>, the same characters.
\<close>

definition Format :: "bool \<Rightarrow> lib \<Rightarrow> string \<Rightarrow> Arg \<Rightarrow> Arg \<Rightarrow> Arg \<Rightarrow> Arg \<Rightarrow> Arg \<Rightarrow> Arg \<Rightarrow> (fault + string option) option" where
  "Format dbg L s a1 a2 a3 a4 a5 a6 =
     (let args = [a1, a2, a3, a4, a5, a6]; nArgs0 = 6 in
      if CrashIf dbg (nArgs0 > int (length args)) then Some (Inl Crash)
      else
        case trim_loop args nArgs0 of
          Inl e \<Rightarrow> Some (Inl e)
        | Inr nArgs \<Rightarrow>
            if nArgs = 0 then Some (Inr (Some (c_str s)))
            else
              (case Fmt_ctor dbg s of
                 None \<Rightarrow> None
               | Some (Inl e) \<Rightarrow> Some (Inl e)
               | Some (Inr fm) \<Rightarrow>
                   (case Eval dbg L fm args nArgs of
                      Inl e \<Rightarrow> Some (Inl e)
                    | Inr (ok, fm1) \<Rightarrow> if \<not> ok then Some (Inr None) else Some (Inr (Some (res fm1))))))"

subsection \<open>Values for the examples\<close>

text \<open>
  The examples below pass no \<^verbatim>\<open>Float\<close>, \<^verbatim>\<open>Double\<close> or \<^verbatim>\<open>WStr\<close> argument. Where a closed
  statement needs a value for the library parameter, it is this one.
\<close>

definition lib0 :: lib where
  "lib0 = \<lparr>BufFmt_G_float = (\<lambda>f. []), BufFmt_G_double = (\<lambda>d. []), ToUtf8Temp = (\<lambda>ws. [])\<rparr>"

text \<open>The programs that the constructor builds from five templates; the examples prove that it does.\<close>

definition prog_pos0 :: Fmt where
  "prog_pos0 = Fmt0\<lparr>format := ''{0}'',
       instructions := \<lparr>inst_t = TAny, argNo = 0, sv = (0, 0)\<rparr> # replicate 31 Inst0,
       nInst := 1\<rparr>"

definition prog_page :: Fmt where
  "prog_page = Fmt0\<lparr>format := ''Page {0} of {1}'',
       instructions := \<lparr>inst_t = TFormatStr, argNo = - 1, sv = (0, 5)\<rparr>
         # \<lparr>inst_t = TAny, argNo = 0, sv = (0, 0)\<rparr>
         # \<lparr>inst_t = TFormatStr, argNo = - 1, sv = (8, 4)\<rparr>
         # \<lparr>inst_t = TAny, argNo = 1, sv = (0, 0)\<rparr> # replicate 28 Inst0,
       nInst := 4\<rparr>"

definition prog_a_d :: Fmt where
  "prog_a_d = Fmt0\<lparr>format := ''a%d'',
       instructions := \<lparr>inst_t = TFormatStr, argNo = - 1, sv = (0, 1)\<rparr>
         # \<lparr>inst_t = TInt, argNo = 0, sv = (0, 0)\<rparr> # replicate 30 Inst0,
       nInst := 2, currPercArgNo := 1\<rparr>"

definition prog_a_x :: Fmt where
  "prog_a_x = Fmt0\<lparr>format := ''a%x'',
       instructions := \<lparr>inst_t = TFormatStr, argNo = - 1, sv = (0, 1)\<rparr>
         # \<lparr>inst_t = TNone, argNo = 0, sv = (0, 0)\<rparr> # replicate 30 Inst0,
       nInst := 2, currPercArgNo := 1\<rparr>"

definition prog_hello :: Fmt where
  "prog_hello = Fmt0\<lparr>isOk := False, format := ''hello'',
       instructions := \<lparr>inst_t = TFormatStr, argNo = - 1, sv = (0, 5)\<rparr> # replicate 31 Inst0,
       nInst := 1\<rparr>"

subsection \<open>Invariants of the compiler\<close>

text \<open>
  What holds of the instructions while \<^verbatim>\<open>ParseFormat\<close> runs: the array has its 32
  entries, at most 32 are in use, and a literal instruction has \<open>argNo = -1\<close> and a slice
  that is not empty and lies in the template.
\<close>

definition insts_ok :: "Fmt \<Rightarrow> bool" where
  "insts_ok fm \<longleftrightarrow>
     length (instructions fm) = dimof_instructions \<and> nInst fm \<le> dimof_instructions \<and>
     (\<forall>i < nInst fm. inst_t (instructions fm ! i) = TFormatStr \<longrightarrow>
        argNo (instructions fm ! i) = - 1 \<and> 0 < snd (sv (instructions fm ! i)) \<and>
        fst (sv (instructions fm ! i)) + snd (sv (instructions fm ! i)) \<le> length (format fm))"

text \<open>The fields that the compiler's helpers leave as they are.\<close>

definition same_frame :: "Fmt \<Rightarrow> Fmt \<Rightarrow> bool" where
  "same_frame fm fm1 \<longleftrightarrow>
     format fm1 = format fm \<and> res fm1 = res fm \<and> isOk fm1 = isOk fm \<and> currArgNo fm1 = currArgNo fm"

section \<open>Properties\<close>

subsection \<open>Auxiliary facts\<close>

lemma special_chars_distinct [simp]:
  "backslash \<noteq> NUL" "backslash \<noteq> CHR ''{''" "backslash \<noteq> CHR ''%''"
  "NUL \<noteq> CHR ''{''" "NUL \<noteq> CHR ''%''" "NUL \<noteq> backslash"
  by (simp_all add: backslash_def NUL_def)

text \<open>
  At a backslash that no \<open>{\<close> follows the scanning loop executes \<^verbatim>\<open>continue\<close> with
  \<open>fmt\<close> unchanged: from such a state it returns nothing.
\<close>

lemma ParseFormat_loop_stuck:
  assumes "rd (format fm) fmt = Some backslash"
    and "rd (format fm) (fmt + 1) = Some c1" and "c1 \<noteq> CHR ''{''"
  shows "ParseFormat_loop dbg fm fmt start = None"
proof (rule ccontr)
  assume "ParseFormat_loop dbg fm fmt start \<noteq> None"
  then obtain y where y: "ParseFormat_loop dbg fm fmt start = Some y"
    by auto
  have "\<not> (rd (format fm) fmt = Some backslash
            \<and> (\<exists>c. rd (format fm) (fmt + 1) = Some c \<and> c \<noteq> CHR ''{''))"
    apply (rule ParseFormat_loop.raw_induct
      [where P = "\<lambda>dbg fm fmt start y. \<not> (rd (format fm) fmt = Some backslash
            \<and> (\<exists>c. rd (format fm) (fmt + 1) = Some c \<and> c \<noteq> CHR ''{''))", OF _ y])
    subgoal premises prems for f dbg fm fmt start y
    proof
      assume st: "rd (format fm) fmt = Some backslash
            \<and> (\<exists>c. rd (format fm) (fmt + 1) = Some c \<and> c \<noteq> CHR ''{'')"
      then have "f dbg fm fmt start = Some y"
        using prems(2) by auto
      from prems(1) [OF this] st show False
        by blast
    qed
    done
  with assms show False
    by blast
qed

text \<open>
  An invariant rule for the scanning loop: what holds at the start and is kept by each of
  the five ways the loop goes round holds when the loop returns, and the loop returns at
  the NUL of the template.
\<close>

lemma ParseFormat_loop_rule:
  assumes y: "ParseFormat_loop dbg fm fmt start = Some (Inr (fm', fmt', start'))"
    and I0: "I fm fmt start"
    and plain: "\<And>fm fmt start c. I fm fmt start \<Longrightarrow> rd (format fm) fmt = Some c \<Longrightarrow> c \<noteq> NUL
        \<Longrightarrow> I fm (fmt + 1) start"
    and esc: "\<And>fm fmt start c fm1. I fm fmt start \<Longrightarrow> rd (format fm) fmt = Some c \<Longrightarrow> c \<noteq> NUL
        \<Longrightarrow> addFormatStr dbg fm start (fmt - start) = Inr fm1 \<Longrightarrow> I fm1 (fmt + 2) (fmt + 1)"
    and pos: "\<And>fm fmt start c fm1 fm2 fmt'. I fm fmt start \<Longrightarrow> rd (format fm) fmt = Some c \<Longrightarrow> c \<noteq> NUL
        \<Longrightarrow> addFormatStr dbg fm start (fmt - start) = Inr fm1
        \<Longrightarrow> parseArgDefPositional dbg fm1 fmt = Inr (fm2, fmt') \<Longrightarrow> I fm2 fmt' fmt'"
    and perc: "\<And>fm fmt start c fm1 fm2 fmt'. I fm fmt start \<Longrightarrow> rd (format fm) fmt = Some c \<Longrightarrow> c \<noteq> NUL
        \<Longrightarrow> addFormatStr dbg fm start (fmt - start) = Inr fm1
        \<Longrightarrow> parseArgDefPerc dbg fm1 fmt = Inr (fm2, fmt') \<Longrightarrow> I fm2 fmt' fmt'"
  shows "I fm' fmt' start' \<and> rd (format fm') fmt' = Some NUL"
proof -
  have "dbg = dbg \<longrightarrow> I fm fmt start \<longrightarrow>
      (\<forall>a b c. (Inr (fm', fmt', start') :: fault + Fmt \<times> nat \<times> nat) = Inr (a, b, c) \<longrightarrow>
         I a b c \<and> rd (format a) b = Some NUL)"
    apply (rule ParseFormat_loop.raw_induct
      [where P = "\<lambda>d fm fmt start y. d = dbg \<longrightarrow> I fm fmt start \<longrightarrow>
         (\<forall>a b c. y = Inr (a, b, c) \<longrightarrow> I a b c \<and> rd (format a) b = Some NUL)", OF _ y])
    subgoal premises prems for f d fm fmt start y
    proof (intro impI allI)
      fix a b c
      assume d: "d = dbg" and I: "I fm fmt start" and yy: "y = Inr (a, b, c)"
      have IH: "I a b c \<and> rd (format a) b = Some NUL"
        if "f dbg fm1 p q = Some (Inr (a, b, c))" and "I fm1 p q" for fm1 p q
        using prems(1) [of dbg fm1 p q y] that yy by simp
      note body = prems(2) [unfolded d yy]
      show "I a b c \<and> rd (format a) b = Some NUL"
      proof (cases "rd (format fm) fmt")
        case None
        with body show ?thesis by simp
      next
        case (Some ch)
        show ?thesis
        proof (cases "ch = NUL")
          case True
          with body Some I show ?thesis by simp
        next
          case nn: False
          have E: "I fm1 p q"
            if "addFormatStr dbg fm start (fmt - start) = Inr fm1" "p = fmt + 2" "q = fmt + 1"
            for fm1 p q
            using esc [OF I Some nn that(1)] that(2,3) by simp
          have A: "I fm p start" if "p = fmt + 1" for p
            using plain [OF I Some nn] that by simp
          note B = pos [OF I Some nn] and C = perc [OF I Some nn]
          from body Some nn show ?thesis
            by (auto split: option.splits if_splits sum.splits
                  intro!: IH intro: I E A B C)
        qed
      qed
    qed
    done
  with I0 show ?thesis by simp
qed


lemma same_frame_refl [simp]: "same_frame fm fm"
  by (simp add: same_frame_def)

lemma same_frame_trans: "same_frame a b \<Longrightarrow> same_frame b c \<Longrightarrow> same_frame a c"
  by (simp add: same_frame_def)

lemma addFormatStr_frame:
  "addFormatStr dbg fm s len = Inr fm1 \<Longrightarrow> same_frame fm fm1"
  by (auto simp: addFormatStr_def same_frame_def split: if_splits)

lemma addFormatStr_ok:
  "addFormatStr dbg fm s len = Inr fm1 \<Longrightarrow> insts_ok fm \<Longrightarrow> s + len \<le> length (format fm)
     \<Longrightarrow> insts_ok fm1"
  by (auto simp: addFormatStr_def insts_ok_def nth_list_update less_Suc_eq split: if_splits)

lemma parseArgDefPositional_loop_pos:
  "parseArgDefPositional_loop dbg f n s = Inr (n', s') \<Longrightarrow> s \<le> s'"
proof (induction dbg f n s rule: parseArgDefPositional_loop.induct)
  case (1 dbg f n s)
  from "1.prems" show ?case
    by (subst (asm) parseArgDefPositional_loop.simps)
       (auto split: option.splits if_splits dest!: "1.IH")
qed

lemma parseArgDefPositional_frame:
  "parseArgDefPositional dbg fm s = Inr (fm1, s') \<Longrightarrow> same_frame fm fm1 \<and> s < s'"
  by (auto simp: parseArgDefPositional_def same_frame_def split: if_splits sum.splits
      dest!: parseArgDefPositional_loop_pos)

lemma parseArgDefPositional_ok:
  "parseArgDefPositional dbg fm s = Inr (fm1, s') \<Longrightarrow> insts_ok fm \<Longrightarrow> insts_ok fm1"
  by (auto simp: parseArgDefPositional_def insts_ok_def nth_list_update less_Suc_eq
      split: if_splits sum.splits)

lemma typeFromChar_not_FormatStr: "typeFromChar dbg c \<noteq> Inr TFormatStr"
  by simp

lemma parseArgDefPerc_frame:
  "parseArgDefPerc dbg fm s = Inr (fm1, s') \<Longrightarrow> same_frame fm fm1 \<and> s < s'"
  by (auto simp: parseArgDefPerc_def same_frame_def simp del: typeFromChar.simps
      split: if_splits sum.splits option.splits)

lemma parseArgDefPerc_ok:
  assumes "parseArgDefPerc dbg fm s = Inr (fm1, s')" and "insts_ok fm"
  shows "insts_ok fm1"
proof -
  from assms(1) obtain c ty where ty: "typeFromChar dbg c = Inr ty"
    and lt: "nInst fm < length (instructions fm)"
    and fm1: "fm1 = fm\<lparr>instructions := (instructions fm)
                               [nInst fm := (instructions fm ! nInst fm)
                                  \<lparr>inst_t := ty, argNo := currPercArgNo fm\<rparr>],
                             nInst := nInst fm + 1,
                             currPercArgNo := currPercArgNo fm + 1\<rparr>"
    by (auto simp: parseArgDefPerc_def simp del: typeFromChar.simps
        split: if_splits sum.splits option.splits)
  from ty have "ty \<noteq> TFormatStr"
    using typeFromChar_not_FormatStr [of dbg c] by auto
  with assms(2) lt show ?thesis
    unfolding fm1 by (auto simp: insts_ok_def nth_list_update less_Suc_eq)
qed

lemma rd_Some_le: "rd f i = Some c \<Longrightarrow> i \<le> length f"
  by (auto simp: rd_def split: if_splits)

lemma ParseFormat_loop_inv:
  assumes y: "ParseFormat_loop dbg fm fmt start = Some (Inr (fm', fmt', start'))"
    and ok: "insts_ok fm" and le: "start \<le> fmt"
  shows "insts_ok fm' \<and> same_frame fm fm' \<and> start' \<le> fmt' \<and> fmt' \<le> length (format fm')"
proof -
  let ?I = "\<lambda>a (p::nat) q. insts_ok a \<and> same_frame fm a \<and> q \<le> p"
  have "?I fm' fmt' start' \<and> rd (format fm') fmt' = Some NUL"
  proof (rule ParseFormat_loop_rule [where I = ?I, OF y])
    show "?I fm fmt start"
      using ok le by simp
  next
    fix a p q c
    assume "?I a p q"
    then show "?I a (p + 1) q"
      by simp
  next
    fix a p q c a1
    assume I: "?I a p q" and r: "rd (format a) p = Some c"
      and add: "addFormatStr dbg a q (p - q) = Inr a1"
    from I rd_Some_le [OF r] have "q + (p - q) \<le> length (format a)"
      by simp
    from addFormatStr_ok [OF add _ this] addFormatStr_frame [OF add] I
    show "?I a1 (p + 2) (p + 1)"
      by (auto intro: same_frame_trans)
  next
    fix a p q c a1 a2 p'
    assume I: "?I a p q" and r: "rd (format a) p = Some c"
      and add: "addFormatStr dbg a q (p - q) = Inr a1"
      and pos: "parseArgDefPositional dbg a1 p = Inr (a2, p')"
    from I rd_Some_le [OF r] have "q + (p - q) \<le> length (format a)"
      by simp
    from addFormatStr_ok [OF add _ this] addFormatStr_frame [OF add] I
      parseArgDefPositional_ok [OF pos] parseArgDefPositional_frame [OF pos]
    show "?I a2 p' p'"
      by (auto intro: same_frame_trans)
  next
    fix a p q c a1 a2 p'
    assume I: "?I a p q" and r: "rd (format a) p = Some c"
      and add: "addFormatStr dbg a q (p - q) = Inr a1"
      and pos: "parseArgDefPerc dbg a1 p = Inr (a2, p')"
    from I rd_Some_le [OF r] have "q + (p - q) \<le> length (format a)"
      by simp
    from addFormatStr_ok [OF add _ this] addFormatStr_frame [OF add] I
      parseArgDefPerc_ok [OF pos] parseArgDefPerc_frame [OF pos]
    show "?I a2 p' p'"
      by (auto intro: same_frame_trans)
  qed
  then show ?thesis
    by (auto dest: rd_Some_le)
qed

lemma ParseFormat_inv:
  assumes "ParseFormat dbg fm0 s = Some (Inr (b, fm))"
    and "length (instructions fm0) = dimof_instructions"
  shows "insts_ok fm \<and> format fm = s \<and> res fm = [] \<and> isOk fm = isOk fm0 \<and> currArgNo fm = 0
       \<and> ParseFormat_validate dbg fm = Inr b"
proof -
  let ?fm = "fm0\<lparr>format := s, nInst := 0, currPercArgNo := 0, currArgNo := 0, res := []\<rparr>"
  from assms(1) obtain fm1 fmt start where
    loop: "ParseFormat_loop dbg ?fm 0 0 = Some (Inr (fm1, fmt, start))"
    and add: "addFormatStr dbg fm1 start (fmt - start) = Inr fm"
    and val: "ParseFormat_validate dbg fm = Inr b"
    by (auto simp: ParseFormat_def Let_def split: option.splits sum.splits)
  have "insts_ok ?fm"
    using assms(2) by (simp add: insts_ok_def)
  from ParseFormat_loop_inv [OF loop this]
  have 1: "insts_ok fm1" "same_frame ?fm fm1" "start \<le> fmt" "fmt \<le> length (format fm1)"
    by simp_all
  then have "start + (fmt - start) \<le> length (format fm1)"
    by simp
  from addFormatStr_ok [OF add 1(1) this] addFormatStr_frame [OF add] 1(2) val
  show ?thesis
    by (simp add: same_frame_def)
qed

lemma Fmt_ctor_inv:
  assumes "Fmt_ctor dbg s = Some (Inr fm)"
  shows "insts_ok fm \<and> format fm = s \<and> res fm = []"
proof -
  from assms obtain b fm1 where p: "ParseFormat dbg Fmt0 s = Some (Inr (b, fm1))"
    and fm: "fm = fm1\<lparr>isOk := b\<rparr>"
    by (auto simp: Fmt_ctor_def split: option.splits sum.splits)
  have "length (instructions Fmt0) = dimof_instructions"
    by (simp add: Fmt0_def)
  from ParseFormat_inv [OF p this] show ?thesis
    unfolding fm by (auto simp: insts_ok_def)
qed

text \<open>
  The two loops after the scan, as sets: the first computes the maximum of \<open>currArgNo\<close> and
  the \<open>argNo\<close> of the directives, the second asks for an instruction for every index up to it.
\<close>

lemma maxArgNo_loop_Max:
  "maxArgNo_loop insts m = Max (insert m (argNo ` {i \<in> set insts. inst_t i \<noteq> TFormatStr}))"
proof (induction insts arbitrary: m)
  case Nil
  show ?case by simp
next
  case (Cons x xs)
  define D where "D = argNo ` {i \<in> set xs. inst_t i \<noteq> TFormatStr}"
  have fin: "finite D"
    by (simp add: D_def)
  have IH: "maxArgNo_loop xs k = Max (insert k D)" for k
    using Cons.IH [of k] by (simp add: D_def)
  show ?case
  proof (cases "inst_t x = TFormatStr")
    case True
    then have "argNo ` {i \<in> set (x # xs). inst_t i \<noteq> TFormatStr} = D"
      by (auto simp: D_def)
    with True IH [of m] show ?thesis
      by simp
  next
    case False
    then have eq: "argNo ` {i \<in> set (x # xs). inst_t i \<noteq> TFormatStr} = insert (argNo x) D"
      by (auto simp: D_def)
    have "Max (insert m (insert (argNo x) D)) = Max (insert (max m (argNo x)) D)"
      using fin by (cases "D = {}") (simp_all add: max.assoc)
    moreover have "maxArgNo_loop (x # xs) m = maxArgNo_loop xs (max m (argNo x))"
      using False by (simp add: max_def)
    ultimately show ?thesis
      using IH [of "max m (argNo x)"] eq by simp
  qed
qed

lemma hasInstructionWithArgNo_loop_iff:
  "hasInstructionWithArgNo_loop insts a \<longleftrightarrow> (\<exists>i \<in> set insts. argNo i = a)"
  by (induction insts) auto

lemma coverage_loop_eq:
  "coverage_loop dbg fm i m =
     (if \<forall>j \<in> {i..m}. hasInstructionWithArgNo (instructions fm) (nInst fm) j then Inr True
      else if dbg then Inl Crash else Inr False)"
proof (induction dbg fm i m rule: coverage_loop.induct)
  case (1 dbg fm i m)
  show ?case
  proof (cases "i \<le> m")
    case False
    then show ?thesis
      by (subst coverage_loop.simps) simp
  next
    case True
    then have split: "{i..m} = insert i {i + 1..m}"
      by auto
    show ?thesis
    proof (cases "hasInstructionWithArgNo (instructions fm) (nInst fm) i")
      case False
      with True show ?thesis
        by (subst coverage_loop.simps) (auto simp: CrashIf_def)
    next
      case ok: True
      from "1.IH" [OF True refl] ok
      have "coverage_loop dbg fm (i + 1) m =
          (if \<forall>j \<in> {i + 1..m}. hasInstructionWithArgNo (instructions fm) (nInst fm) j then Inr True
           else if dbg then Inl Crash else Inr False)"
        by (simp add: CrashIf_def)
      with True ok show ?thesis
        by (subst coverage_loop.simps, subst split) (simp add: CrashIf_def)
    qed
  qed
qed

lemma ParseFormat_validate_eq:
  "ParseFormat_validate dbg fm =
     (if \<forall>j \<in> {0..Max (insert (currArgNo fm)
                   (argNo ` {i \<in> set (take (nInst fm) (instructions fm)). inst_t i \<noteq> TFormatStr}))}.
           \<exists>i \<in> set (take (nInst fm) (instructions fm)). argNo i = j
      then Inr True
      else if dbg then Inl Crash else Inr False)"
  by (simp add: ParseFormat_validate_def coverage_loop_eq maxArgNo_loop_Max
      hasInstructionWithArgNo_def hasInstructionWithArgNo_loop_iff)

lemma Fmt_ctor_validated:
  assumes "Fmt_ctor dbg s = Some (Inr fm)"
  shows "currArgNo fm = 0 \<and> ParseFormat_validate dbg fm = Inr (isOk fm)"
proof -
  from assms obtain b fm1 where p: "ParseFormat dbg Fmt0 s = Some (Inr (b, fm1))"
    and fm: "fm = fm1\<lparr>isOk := b\<rparr>"
    by (auto simp: Fmt_ctor_def split: option.splits sum.splits)
  have "length (instructions Fmt0) = dimof_instructions"
    by (simp add: Fmt0_def)
  from ParseFormat_inv [OF p this]
  have "currArgNo fm1 = 0" and "ParseFormat_validate dbg fm1 = Inr b"
    by simp_all
  moreover have "ParseFormat_validate dbg (fm1\<lparr>isOk := b\<rparr>) = ParseFormat_validate dbg fm1"
    by (simp add: ParseFormat_validate_eq)
  ultimately show ?thesis
    unfolding fm by simp
qed

text \<open>
  Where a program has a directive and the largest \<open>argNo\<close> is not negative, that maximum
  is the \<open>maxArgNo\<close> of the code, and the constructor accepts the template exactly when
  every index up to it has an instruction. A program without a directive is never accepted.
\<close>

lemma coverage_with_directive:
  assumes c: "Fmt_ctor dbg s = Some (Inr fm)"
    and D: "D = {i \<in> set (take (nInst fm) (instructions fm)). inst_t i \<noteq> TFormatStr}"
    and ne: "D \<noteq> {}" and nonneg: "0 \<le> Max (argNo ` D)"
  shows "isOk fm \<longleftrightarrow>
     (\<forall>j \<in> {0..Max (argNo ` D)}. \<exists>i \<in> set (take (nInst fm) (instructions fm)). argNo i = j)"
proof -
  have fin: "finite (argNo ` D)"
    by (simp add: D)
  from ne have "argNo ` D \<noteq> {}"
    by simp
  with fin nonneg have "Max (insert 0 (argNo ` D)) = Max (argNo ` D)"
    by (simp add: max_def)
  with Fmt_ctor_validated [OF c] show ?thesis
    unfolding D by (auto simp: ParseFormat_validate_eq split: if_splits)
qed

lemma no_directive_rejected:
  assumes c: "Fmt_ctor dbg s = Some (Inr fm)"
    and lit: "\<forall>i < nInst fm. inst_t (instructions fm ! i) = TFormatStr"
  shows "\<not> isOk fm \<and> \<not> dbg"
proof -
  from Fmt_ctor_inv [OF c] have ok: "insts_ok fm"
    by simp
  have "argNo i \<noteq> 0" if "i \<in> set (take (nInst fm) (instructions fm))" for i
  proof -
    from that ok obtain k where "k < nInst fm" "i = instructions fm ! k"
      by (auto simp: in_set_conv_nth insts_ok_def)
    with ok lit show ?thesis
      by (auto simp: insts_ok_def)
  qed
  then have "\<not> (\<forall>j \<in> {0..Max (insert (0::int)
                   (argNo ` {i \<in> set (take (nInst fm) (instructions fm)). inst_t i \<noteq> TFormatStr}))}.
           \<exists>i \<in> set (take (nInst fm) (instructions fm)). argNo i = j)"
    by (auto intro!: bexI [of _ 0])
  with Fmt_ctor_validated [OF c] show ?thesis
    by (auto simp: ParseFormat_validate_eq split: if_splits)
qed

text \<open>
  The scan of a stretch of ordinary characters only advances, to the end of the template.
\<close>

lemma ParseFormat_loop_plain:
  assumes "\<forall>k. fmt \<le> k \<and> k < length (format fm)
             \<longrightarrow> format fm ! k \<notin> {NUL, backslash, CHR ''{'', CHR ''%''}"
    and "fmt \<le> length (format fm)"
  shows "ParseFormat_loop dbg fm fmt start = Some (Inr (fm, length (format fm), start))"
  using assms
proof (induction "length (format fm) - fmt" arbitrary: fmt)
  case 0
  then have "rd (format fm) fmt = Some NUL" "fmt = length (format fm)"
    by (simp_all add: rd_def)
  then show ?case
    by (subst ParseFormat_loop.simps) simp
next
  case (Suc n)
  then have lt: "fmt < length (format fm)"
    by simp
  with Suc.prems have r: "rd (format fm) fmt = Some (format fm ! fmt)"
    and p: "format fm ! fmt \<notin> {NUL, backslash, CHR ''{'', CHR ''%''}"
    by (simp_all add: rd_def)
  from Suc.hyps(2) lt have "n = length (format fm) - (fmt + 1)"
    by simp
  from Suc.hyps(1) [OF this] Suc.prems lt
  have "ParseFormat_loop dbg fm (fmt + 1) start = Some (Inr (fm, length (format fm), start))"
    by simp
  with r p show ?case
    by (subst ParseFormat_loop.simps) simp
qed

lemma Fmt_ctor_plain:
  assumes "set s \<inter> {NUL, backslash, CHR ''{'', CHR ''%''} = {}"
  shows "\<exists>fm. Fmt_ctor dbg s = Some (if dbg then Inl Crash else Inr fm) \<and> \<not> isOk fm"
proof -
  define fm where "fm = Fmt0\<lparr>format := s, nInst := 0, currPercArgNo := 0, currArgNo := 0, res := []\<rparr>"
  define lit where "lit = \<lparr>inst_t = TFormatStr, argNo = - 1, sv = (0, length s)\<rparr>"
  define fm2 where "fm2 = (if s = [] then fm
              else fm\<lparr>instructions := (instructions fm)[0 := lit], nInst := 1\<rparr>)"
  from assms have "\<forall>k. 0 \<le> k \<and> k < length (format fm)
             \<longrightarrow> format fm ! k \<notin> {NUL, backslash, CHR ''{'', CHR ''%''}"
    by (auto simp: fm_def disjoint_iff)
  from ParseFormat_loop_plain [OF this, of dbg 0]
  have loop: "ParseFormat_loop dbg fm 0 0 = Some (Inr (fm, length s, 0))"
    by (simp add: fm_def)
  have add: "addFormatStr dbg fm 0 (length s - 0) = Inr fm2"
    by (simp add: fm_def fm2_def lit_def addFormatStr_def CrashIf_def Fmt0_def dimof_instructions_def)
  have set2: "set (take (nInst fm2) (instructions fm2)) = (if s = [] then {} else {lit})"
    by (simp add: fm_def fm2_def Fmt0_def dimof_instructions_def take_Suc_conv_app_nth)
  have c0: "currArgNo fm2 = 0"
    by (simp add: fm_def fm2_def)
  have "\<not> (\<exists>i \<in> set (take (nInst fm2) (instructions fm2)). argNo i = 0)"
    unfolding set2 by (simp add: lit_def)
  moreover have "(0::int) \<in> {0..Max (insert (currArgNo fm2)
                   (argNo ` {i \<in> set (take (nInst fm2) (instructions fm2)). inst_t i \<noteq> TFormatStr}))}"
    unfolding c0 by simp
  ultimately have "\<not> (\<forall>j \<in> {0..Max (insert (currArgNo fm2)
                   (argNo ` {i \<in> set (take (nInst fm2) (instructions fm2)). inst_t i \<noteq> TFormatStr}))}.
           \<exists>i \<in> set (take (nInst fm2) (instructions fm2)). argNo i = j)"
    by blast
  then have val: "ParseFormat_validate dbg fm2 = (if dbg then Inl Crash else Inr False)"
    by (simp only: ParseFormat_validate_eq if_False)
  have "ParseFormat dbg Fmt0 s = Some (if dbg then Inl Crash else Inr (False, fm2))"
    unfolding ParseFormat_def Let_def fm_def [symmetric] loop
    using add val by simp
  then have "Fmt_ctor dbg s = Some (if dbg then Inl Crash else Inr (fm2\<lparr>isOk := False\<rparr>))"
    by (simp add: Fmt_ctor_def)
  then show ?thesis
    by (intro exI [of _ "fm2\<lparr>isOk := False\<rparr>"]) simp
qed

text \<open>
  The trimming loop: when every argument below \<open>k\<close> is \<^verbatim>\<open>None\<close> it reads \<^verbatim>\<open>args[-1]\<close>;
  when one is not, it returns the position after the last such argument.
\<close>

lemma arg_t_None_iff: "arg_t a = TNone \<longleftrightarrow> a = ArgNone"
  by (cases a) simp_all

lemma trim_loop_all_None:
  "k \<le> length args \<Longrightarrow> \<forall>i < k. arg_t (args ! i) = TNone
     \<Longrightarrow> trim_loop args (int k) = Inl ReadBeforeArray"
proof (induction k)
  case 0
  show ?case
    by (subst trim_loop.simps) simp
next
  case (Suc k)
  then have "trim_loop args (int k) = Inl ReadBeforeArray"
    by simp
  with Suc.prems show ?case
    by (subst trim_loop.simps) (simp add: nat_add_distrib)
qed

lemma trim_loop_some:
  "k \<le> length args \<Longrightarrow> \<exists>i < k. arg_t (args ! i) \<noteq> TNone
     \<Longrightarrow> \<exists>n. trim_loop args (int k) = Inr n \<and> 1 \<le> n \<and> n \<le> int k
            \<and> arg_t (args ! nat (n - 1)) \<noteq> TNone"
proof (induction k)
  case 0
  then show ?case
    by simp
next
  case (Suc k)
  show ?case
  proof (cases "arg_t (args ! k) = TNone")
    case True
    with Suc.prems have "\<exists>i < k. arg_t (args ! i) \<noteq> TNone"
      by (metis less_Suc_eq)
    with Suc.IH Suc.prems(1) obtain n where "trim_loop args (int k) = Inr n" "1 \<le> n" "n \<le> int k"
      "arg_t (args ! nat (n - 1)) \<noteq> TNone"
      by auto
    with True Suc.prems(1) show ?thesis
      by (subst trim_loop.simps) (simp add: nat_add_distrib)
  next
    case False
    with Suc.prems(1) show ?thesis
      by (subst trim_loop.simps) (simp add: nat_add_distrib)
  qed
qed

lemma some_arg:
  assumes "\<exists>a \<in> set args. arg_t a \<noteq> TNone"
  shows "\<exists>i < length args. arg_t (args ! i) \<noteq> TNone"
  using assms by (auto simp: in_set_conv_nth)

lemma trim6:
  assumes "\<not> (a1 = ArgNone \<and> a2 = ArgNone \<and> a3 = ArgNone \<and> a4 = ArgNone \<and> a5 = ArgNone \<and> a6 = ArgNone)"
  shows "\<exists>n. trim_loop [a1, a2, a3, a4, a5, a6] 6 = Inr n \<and> 1 \<le> n"
proof -
  define args where "args = [a1, a2, a3, a4, a5, a6]"
  from assms have "\<exists>a \<in> set args. arg_t a \<noteq> TNone"
    by (auto simp: arg_t_None_iff args_def)
  from trim_loop_some [OF le_refl some_arg [OF this]]
  obtain n where "trim_loop args (int (length args)) = Inr n" "1 \<le> n"
    by blast
  moreover have "int (length args) = 6"
    by (simp add: args_def)
  ultimately show ?thesis
    unfolding args_def by auto
qed

text \<open>
  The cast of \<^verbatim>\<open>Eval\<close> leaves an \<^verbatim>\<open>i64\<close> in the range of \<^verbatim>\<open>int\<close> as it is.
\<close>

lemma sint_ucast_in_range:
  fixes v :: "64 word"
  assumes "- (2 ^ 31) \<le> sint v" and "sint v < 2 ^ 31"
  shows "sint (ucast v :: 32 word) = sint v"
proof -
  have "sint (ucast v :: 32 word) = signed_take_bit 31 (uint v)"
    by (simp add: signed_ucast_eq)
  also have "\<dots> = signed_take_bit 31 (signed_take_bit 63 (uint v))"
    by simp
  also have "\<dots> = signed_take_bit 31 (sint v)"
    by (simp only: sint_uint [of v]) simp
  also have "\<dots> = sint v"
    using assms by (rule signed_take_bit_int_eq_self)
  finally show ?thesis .
qed

lemma Eval_switch_Int_in_range:
  assumes "- (2 ^ 31) \<le> sint v" and "sint v < 2 ^ 31"
  shows "Eval_switch L (ArgInt v) = dec_int (sint v)"
  using sint_ucast_in_range [OF assms] by (simp add: BufFmt_d_def)

text \<open>
  The evaluation loop reads \<open>res\<close> only to append to it: a run that returns true from
  an accumulator returns true from any other, with the same text appended.
\<close>

lemma isOk_update_same: "isOk fm \<Longrightarrow> fm\<lparr>isOk := True\<rparr> = fm"
  by (cases fm) simp

lemma Eval_loop_acc:
  assumes "Eval_loop dbg L args nArgs fm n = Inr (True, fm1)" and "isOk fm"
  shows "\<exists>out. fm1 = fm\<lparr>res := res fm @ out\<rparr> \<and>
           (\<forall>r. Eval_loop dbg L args nArgs (fm\<lparr>res := r\<rparr>) n = Inr (True, fm\<lparr>res := r @ out\<rparr>))"
  using assms
proof (induction dbg L args nArgs fm n arbitrary: fm1 rule: Eval_loop.induct)
  case (1 dbg L args nArgs fm n)
  show ?case
  proof (cases "n < nInst fm")
    case False
    with "1.prems" have "fm1 = fm"
      by (subst (asm) Eval_loop.simps) simp
    moreover from False have "Eval_loop dbg L args nArgs (fm\<lparr>res := r\<rparr>) n = Inr (True, fm\<lparr>res := r\<rparr>)" for r
      by (subst Eval_loop.simps) simp
    ultimately show ?thesis
      by (intro exI [of _ "[]"]) simp
  next
    case True
    let ?i = "instructions fm ! n"
    from "1.prems"(1) True have c: "\<not> CrashIf dbg (n \<ge> dimof_instructions)" "\<not> CrashIf dbg (n \<ge> nInst fm)"
      "\<not> n \<ge> length (instructions fm)" "\<not> CrashIf dbg (argNo ?i \<ge> nArgs)" "\<not> argNo ?i \<ge> nArgs"
      by (subst (asm) Eval_loop.simps; simp split: if_splits)+
    show ?thesis
    proof (cases "inst_t ?i = TFormatStr")
      case lit: True
      let ?t = "sv_text (format fm) (sv ?i)"
      from "1.prems"(1) True c lit
      have "Eval_loop dbg L args nArgs (fm\<lparr>res := res fm @ ?t\<rparr>) (n + 1) = Inr (True, fm1)"
        by (subst (asm) Eval_loop.simps) simp
      from "1.IH"(1) [OF True c lit this] "1.prems"(2)
      obtain out where o: "fm1 = fm\<lparr>res := res fm @ ?t @ out\<rparr>"
        "\<And>r. Eval_loop dbg L args nArgs (fm\<lparr>res := r\<rparr>) (n + 1) = Inr (True, fm\<lparr>res := r @ out\<rparr>)"
        by auto
      have "Eval_loop dbg L args nArgs (fm\<lparr>res := r\<rparr>) n = Inr (True, fm\<lparr>res := r @ ?t @ out\<rparr>)" for r
        using True c lit o(2) [of "r @ ?t"] by (subst Eval_loop.simps) simp
      with o(1) show ?thesis
        by blast
    next
      case nl: False
      let ?a = "args ! nat (argNo ?i)"
      let ?t = "Eval_switch L ?a"
      from "1.prems"(1) True c nl
      have d: "\<not> argNo ?i < 0" "\<not> argNo ?i \<ge> int (length args)"
        "\<not> CrashIf dbg (\<not> validArgTypes (inst_t ?i) (arg_t ?a))"
        "\<not> \<not> validArgTypes (inst_t ?i) (arg_t ?a)"
        by (subst (asm) Eval_loop.simps; simp del: validArgTypes.simps split: if_splits)+
      from "1.prems"(1) True c nl d
      have "Eval_loop dbg L args nArgs (fm\<lparr>isOk := True, res := res fm @ ?t\<rparr>) (n + 1) = Inr (True, fm1)"
        by (subst (asm) Eval_loop.simps) (simp del: validArgTypes.simps)
      from "1.IH"(2) [OF True c nl d this]
      obtain out where o: "fm1 = fm\<lparr>isOk := True, res := res fm @ ?t @ out\<rparr>"
        "\<And>r. Eval_loop dbg L args nArgs (fm\<lparr>isOk := True, res := r\<rparr>) (n + 1)
               = Inr (True, fm\<lparr>isOk := True, res := r @ out\<rparr>)"
        by auto
      have "Eval_loop dbg L args nArgs (fm\<lparr>res := r\<rparr>) n = Inr (True, fm\<lparr>res := r @ ?t @ out\<rparr>)" for r
        using True c nl d o(2) [of "r @ ?t"] isOk_update_same [OF "1.prems"(2)]
        by (subst Eval_loop.simps) (simp del: validArgTypes.simps)
      with o(1) isOk_update_same [OF "1.prems"(2)] show ?thesis
        by auto
    qed
  qed
qed

subsection \<open>Templates without directives\<close>

text \<open>
  C1. The claim: for a template with no directive, \<^verbatim>\<open>Format\<close> returns the template
  unchanged whatever the arguments are. The code never does for a template of ordinary
  characters (none of NUL, backslash, \<open>{\<close> and \<open>%\<close>). With an argument that is not
  \<^verbatim>\<open>None\<close> the compiler emits at most one literal instruction, starts \<open>maxArgNo\<close> at
  \<open>currArgNo = 0\<close> and looks for an instruction with \<open>argNo = 0\<close>; there is none, so
  \<^verbatim>\<open>ParseFormat\<close> stops at \<^verbatim>\<open>CrashIf(!isOk)\<close> or returns false, and \<^verbatim>\<open>Format\<close> returns
  \<^verbatim>\<open>nullptr\<close>. With six \<^verbatim>\<open>None\<close> arguments the trimming loop reads \<^verbatim>\<open>args[-1]\<close>.
\<close>

theorem Format_plain_template:
  assumes "set s \<inter> {NUL, backslash, CHR ''{'', CHR ''%''} = {}"
  shows "Format dbg L s a1 a2 a3 a4 a5 a6 =
     Some (if a1 = ArgNone \<and> a2 = ArgNone \<and> a3 = ArgNone \<and> a4 = ArgNone \<and> a5 = ArgNone \<and> a6 = ArgNone
           then Inl ReadBeforeArray
           else if dbg then Inl Crash
           else Inr None)"
proof (cases "a1 = ArgNone \<and> a2 = ArgNone \<and> a3 = ArgNone \<and> a4 = ArgNone \<and> a5 = ArgNone \<and> a6 = ArgNone")
  case True
  have "trim_loop [ArgNone, ArgNone, ArgNone, ArgNone, ArgNone, ArgNone] 6 = Inl ReadBeforeArray"
    by code_simp
  with True show ?thesis
    by (simp add: Format_def CrashIf_def)
next
  case False
  from trim6 [OF False]
  obtain n where n: "trim_loop [a1, a2, a3, a4, a5, a6] 6 = Inr n" "1 \<le> n"
    by blast
  from Fmt_ctor_plain [OF assms, of dbg]
  obtain fm where fm: "Fmt_ctor dbg s = Some (if dbg then Inl Crash else Inr fm)" "\<not> isOk fm"
    by blast
  have "Format dbg L s a1 a2 a3 a4 a5 a6 = Some (if dbg then Inl Crash else Inr None)"
  proof (cases dbg)
    case True
    with n fm show ?thesis
      by (simp add: Format_def CrashIf_def)
  next
    case nd: False
    with n fm show ?thesis
      by (simp add: Format_def CrashIf_def Eval_def)
  qed
  with False show ?thesis
    by simp
qed

text \<open>The instance: the template \<open>hello\<close> with one \<^verbatim>\<open>Int\<close> argument, in both builds.\<close>

theorem Format_plain_template_witness:
  "set ''hello'' \<inter> {NUL, backslash, CHR ''{'', CHR ''%''} = {}
   \<and> Format False lib0 ''hello'' (ArgInt 1) ArgNone ArgNone ArgNone ArgNone ArgNone = Some (Inr None)
   \<and> Format True lib0 ''hello'' (ArgInt 1) ArgNone ArgNone ArgNone ArgNone ArgNone = Some (Inl Crash)"
proof -
  have h: "set ''hello'' \<inter> {NUL, backslash, CHR ''{'', CHR ''%''} = {}"
    by (simp add: NUL_def backslash_def)
  from Format_plain_template [OF h, of False lib0 "ArgInt 1" ArgNone ArgNone ArgNone ArgNone ArgNone]
    Format_plain_template [OF h, of True lib0 "ArgInt 1" ArgNone ArgNone ArgNone ArgNone ArgNone] h
  show ?thesis
    by simp
qed

subsection \<open>Termination of the scan\<close>

text \<open>
  C2. The claim: the scan of every template ends, also at a backslash that no open brace
  follows. The code does not end there: for the template that is one backslash, and for
  \<open>a\b\<close>, \<^verbatim>\<open>ParseFormat\<close> returns nothing, in either build and from any state of \<open>o\<close>.
\<close>

theorem ParseFormat_lone_backslash_diverges:
  "ParseFormat dbg fm0 [backslash] = None
   \<and> ParseFormat dbg fm0 [CHR ''a'', backslash, CHR ''b''] = None"
proof
  have "ParseFormat_loop dbg
          (fm0\<lparr>format := [backslash], nInst := 0, currPercArgNo := 0, currArgNo := 0, res := []\<rparr>) 0 0
        = None"
    by (rule ParseFormat_loop_stuck [where ?c1.0 = NUL]) (simp_all add: rd_def)
  then show "ParseFormat dbg fm0 [backslash] = None"
    by (simp add: ParseFormat_def)
next
  let ?fm = "fm0\<lparr>format := [CHR ''a'', backslash, CHR ''b''], nInst := 0, currPercArgNo := 0,
                   currArgNo := 0, res := []\<rparr>"
  have stuck: "ParseFormat_loop dbg ?fm 1 0 = None"
    by (rule ParseFormat_loop_stuck [where ?c1.0 = "CHR ''b''"]) (simp_all add: rd_def)
  have "ParseFormat_loop dbg ?fm 0 0 = ParseFormat_loop dbg ?fm (0 + 1) 0"
    by (subst ParseFormat_loop.simps) (simp add: rd_def NUL_def backslash_def)
  with stuck have "ParseFormat_loop dbg ?fm 0 0 = None"
    by simp
  then show "ParseFormat dbg fm0 [CHR ''a'', backslash, CHR ''b''] = None"
    by (simp add: ParseFormat_def)
qed

subsection \<open>The capacity of the instruction array\<close>

text \<open>
  C3. The claim: every emission path reports a 33rd instruction as an error instead of
  writing behind the array. The code does not: \<^verbatim>\<open>parseArgDefPerc\<close> and
  \<^verbatim>\<open>parseArgDefPositional\<close> have no check, so 33 directives write \<^verbatim>\<open>instructions[32]\<close>
  in either build; \<^verbatim>\<open>addFormatStr\<close> checks by \<^verbatim>\<open>CrashIf\<close> only, so a literal run after
  32 directives stops a development build and writes behind the array otherwise.
\<close>

theorem Fmt_ctor_33_instructions:
  "Fmt_ctor dbg (concat (replicate 33 ''%d'')) = Some (Inl WriteOutOfBounds)
   \<and> Fmt_ctor dbg (concat (replicate 33 ''{0}'')) = Some (Inl WriteOutOfBounds)
   \<and> Fmt_ctor dbg (concat (replicate 32 ''%d'') @ ''a'')
       = Some (Inl (if dbg then Crash else WriteOutOfBounds))"
proof (cases dbg)
  case True
  have "Fmt_ctor True (concat (replicate 33 ''%d'')) = Some (Inl WriteOutOfBounds)"
    by code_simp
  moreover have "Fmt_ctor True (concat (replicate 33 ''{0}'')) = Some (Inl WriteOutOfBounds)"
    by code_simp
  moreover have "Fmt_ctor True (concat (replicate 32 ''%d'') @ ''a'') = Some (Inl Crash)"
    by code_simp
  ultimately show ?thesis using True by simp
next
  case False
  have "Fmt_ctor False (concat (replicate 33 ''%d'')) = Some (Inl WriteOutOfBounds)"
    by code_simp
  moreover have "Fmt_ctor False (concat (replicate 33 ''{0}'')) = Some (Inl WriteOutOfBounds)"
    by code_simp
  moreover have "Fmt_ctor False (concat (replicate 32 ''%d'') @ ''a'') = Some (Inl WriteOutOfBounds)"
    by code_simp
  ultimately show ?thesis using False by simp
qed

subsection \<open>Running a program twice\<close>

text \<open>
  C4, the claim as stated: a second \<^verbatim>\<open>Eval\<close> of the same program on the same arguments
  leaves the same output text as the first. It does not: \<^verbatim>\<open>Eval\<close> appends to \<open>res\<close>, and only
  \<^verbatim>\<open>ParseFormat\<close> resets \<open>res\<close>. The program of \<open>{0}\<close>, run on the \<^verbatim>\<open>Int\<close> 7, holds \<open>7\<close>
  after the first run and \<open>77\<close> after the second.
\<close>

theorem Eval_twice_counterexample:
  "Fmt_ctor False ''{0}'' = Some (Inr prog_pos0)
   \<and> Eval False lib0 prog_pos0 [ArgInt 7] 1 = Inr (True, prog_pos0\<lparr>res := ''7''\<rparr>)
   \<and> Eval False lib0 (prog_pos0\<lparr>res := ''7''\<rparr>) [ArgInt 7] 1 = Inr (True, prog_pos0\<lparr>res := ''77''\<rparr>)
   \<and> res (prog_pos0\<lparr>res := ''77''\<rparr>) \<noteq> res (prog_pos0\<lparr>res := ''7''\<rparr>)"
  by code_simp

text \<open>
  C4, amended: for every compiled program and every argument list that a first \<^verbatim>\<open>Eval\<close>
  accepts, a second \<^verbatim>\<open>Eval\<close> of the program as the first run left it is accepted too and
  appends the same text once more, so that \<open>res\<close> then holds the first output twice; run
  on the program with \<open>res\<close> emptied, it leaves exactly the first output again.
\<close>

theorem Eval_twice_accumulates:
  assumes "Fmt_ctor dbg s = Some (Inr fm)"
    and "Eval dbg' L fm args nArgs = Inr (True, fm1)"
  shows "Eval dbg' L fm1 args nArgs = Inr (True, fm1\<lparr>res := res fm1 @ res fm1\<rparr>)
       \<and> Eval dbg' L (fm1\<lparr>res := []\<rparr>) args nArgs = Inr (True, fm1)"
proof -
  from Fmt_ctor_inv [OF assms(1)] have r0: "res fm = []"
    by simp
  from assms(2) have ok: "isOk fm" and loop: "Eval_loop dbg' L args nArgs fm 0 = Inr (True, fm1)"
    by (auto simp: Eval_def split: if_splits)
  from Eval_loop_acc [OF loop ok] r0 obtain out where
    fm1: "fm1 = fm\<lparr>res := out\<rparr>"
    and again: "\<And>r. Eval_loop dbg' L args nArgs (fm\<lparr>res := r\<rparr>) 0 = Inr (True, fm\<lparr>res := r @ out\<rparr>)"
    by auto
  from again [of out] again [of "[]"] ok show ?thesis
    unfolding fm1 by (simp add: Eval_def)
qed

text \<open>The instance \<open>Page {0} of {1}\<close> with the arguments 3 and 10.\<close>

theorem Eval_twice_accumulates_witness:
  "Fmt_ctor True ''Page {0} of {1}'' = Some (Inr prog_page)
   \<and> Eval True lib0 prog_page [ArgInt 3, ArgInt 10] 2
       = Inr (True, prog_page\<lparr>res := ''Page 3 of 10''\<rparr>)
   \<and> Eval True lib0 (prog_page\<lparr>res := ''Page 3 of 10''\<rparr>) [ArgInt 3, ArgInt 10] 2
       = Inr (True, prog_page\<lparr>res := ''Page 3 of 10Page 3 of 10''\<rparr>)
   \<and> Eval True lib0 (prog_page\<lparr>res := []\<rparr>) [ArgInt 3, ArgInt 10] 2
       = Inr (True, prog_page\<lparr>res := ''Page 3 of 10''\<rparr>)"
proof -
  have c: "Fmt_ctor True ''Page {0} of {1}'' = Some (Inr prog_page)"
    by code_simp
  have e: "Eval True lib0 prog_page [ArgInt 3, ArgInt 10] 2
       = Inr (True, prog_page\<lparr>res := ''Page 3 of 10''\<rparr>)"
    by code_simp
  from Eval_twice_accumulates [OF c e] c e show ?thesis
    by simp
qed

subsection \<open>Formatting an \<^verbatim>\<open>Int\<close> argument\<close>

text \<open>
  C5. The claim: an \<^verbatim>\<open>Int\<close> argument with the 64-bit value \<open>v\<close> is rendered as the decimal
  text of \<open>v\<close>. The code casts the \<^verbatim>\<open>i64\<close> to \<^verbatim>\<open>int\<close> before it prints (the source notes
  ``i64 is potentially bigger than int''): the value \<open>2^32\<close> is rendered as \<open>0\<close> and
  \<open>2^32 - 1\<close> as \<open>-1\<close>.
\<close>

theorem Eval_Int_keeps_low_32_bits:
  "Eval_switch L (ArgInt 4294967296) = ''0''
   \<and> Format dbg L ''%d'' (ArgInt 4294967296) ArgNone ArgNone ArgNone ArgNone ArgNone
       = Some (Inr (Some ''0''))
   \<and> Format dbg L ''%d'' (ArgInt 4294967295) ArgNone ArgNone ArgNone ArgNone ArgNone
       = Some (Inr (Some ''-1''))"
  by code_simp

subsection \<open>Malformed directives\<close>

text \<open>
  C6. The claim: a non-digit inside braces, an unterminated brace or an unknown letter
  after \<open>%\<close> makes the compiler set \<open>isOk = false\<close>, so that \<^verbatim>\<open>Eval\<close> is refused at entry.
  The code has only a \<^verbatim>\<open>CrashIf\<close> at these places. Where \<^verbatim>\<open>CrashIf\<close> does not stop the
  process, \<open>a%x\<close> compiles with \<open>isOk = true\<close> to an instruction of kind \<^verbatim>\<open>None\<close>, and
  \<^verbatim>\<open>Eval\<close> appends the literal \<open>a\<close> before the type check of that instruction fails;
  \<open>{0}{!}\<close> compiles with \<open>isOk = true\<close>; the scan of \<open>{0\<close> reads behind the
  terminating NUL.
\<close>

theorem malformed_directives_set_no_flag:
  "Fmt_ctor False ''a%x'' = Some (Inr prog_a_x)
   \<and> isOk prog_a_x
   \<and> Eval False lib0 prog_a_x [ArgInt 1] 1 = Inr (False, prog_a_x\<lparr>isOk := False, res := ''a''\<rparr>)
   \<and> Fmt_ctor True ''a%x'' = Some (Inl Crash)
   \<and> map_option (map_sum id isOk) (Fmt_ctor False ''{0}{!}'') = Some (Inr True)
   \<and> Fmt_ctor True ''{0}{!}'' = Some (Inl Crash)
   \<and> Fmt_ctor False ''{0'' = Some (Inl ReadOutOfBounds)
   \<and> Fmt_ctor True ''{0'' = Some (Inl Crash)"
  by code_simp

subsection \<open>The coverage check\<close>

text \<open>
  C7. The claim: compilation succeeds exactly when every index from 0 to the largest
  \<open>argNo\<close> of a directive has an instruction. What the code decides, for every template
  the constructor returns a program for: \<open>isOk\<close> holds exactly when every index from 0 to
  the largest of 0 and the \<open>argNo\<close> of the directives has an instruction. The two differ
  on a template without a directive: there is no index to cover, but \<open>maxArgNo\<close> starts at
  \<open>currArgNo = 0\<close> and the code asks for an instruction with \<open>argNo = 0\<close>.
\<close>

theorem Fmt_ctor_coverage:
  assumes "Fmt_ctor dbg s = Some (Inr fm)"
  shows "isOk fm \<longleftrightarrow>
     (\<forall>j \<in> {0..Max (insert 0
               (argNo ` {i \<in> set (take (nInst fm) (instructions fm)). inst_t i \<noteq> TFormatStr}))}.
        \<exists>i \<in> set (take (nInst fm) (instructions fm)). argNo i = j)"
  using Fmt_ctor_validated [OF assms]
  by (simp add: ParseFormat_validate_eq split: if_splits)

text \<open>
  The instance \<open>hello\<close>: no directive, and the constructor leaves \<open>isOk = false\<close> (or
  stops at \<^verbatim>\<open>CrashIf(!isOk)\<close>). With directives the code agrees with the claim: \<open>{0}{2}\<close> is
  rejected and \<open>{0}{1}{0}\<close> accepted.
\<close>

theorem Fmt_ctor_coverage_witness:
  "Fmt_ctor False ''hello'' = Some (Inr prog_hello)
   \<and> \<not> isOk prog_hello
   \<and> {i \<in> set (take (nInst prog_hello) (instructions prog_hello)). inst_t i \<noteq> TFormatStr} = {}
   \<and> \<not> (\<forall>j \<in> {0..Max (insert 0
               (argNo ` {i \<in> set (take (nInst prog_hello) (instructions prog_hello)).
                          inst_t i \<noteq> TFormatStr}))}.
        \<exists>i \<in> set (take (nInst prog_hello) (instructions prog_hello)). argNo i = j)
   \<and> Fmt_ctor True ''hello'' = Some (Inl Crash)
   \<and> map_option (map_sum id isOk) (Fmt_ctor False ''{0}{2}'') = Some (Inr False)
   \<and> Fmt_ctor True ''{0}{2}'' = Some (Inl Crash)
   \<and> map_option (map_sum id isOk) (Fmt_ctor False ''{0}{1}{0}'') = Some (Inr True)
   \<and> map_option (map_sum id isOk) (Fmt_ctor True ''{0}{1}{0}'') = Some (Inr True)"
proof -
  have c: "Fmt_ctor False ''hello'' = Some (Inr prog_hello)"
    by code_simp
  have n: "\<not> isOk prog_hello"
    by (simp add: prog_hello_def)
  have d: "{i \<in> set (take (nInst prog_hello) (instructions prog_hello)). inst_t i \<noteq> TFormatStr} = {}"
    by (simp add: prog_hello_def Fmt0_def)
  from Fmt_ctor_coverage [OF c] n
  have nc: "\<not> (\<forall>j \<in> {0..Max (insert 0
               (argNo ` {i \<in> set (take (nInst prog_hello) (instructions prog_hello)).
                          inst_t i \<noteq> TFormatStr}))}.
        \<exists>i \<in> set (take (nInst prog_hello) (instructions prog_hello)). argNo i = j)"
    by simp
  have e: "Fmt_ctor True ''hello'' = Some (Inl Crash)"
    "map_option (map_sum id isOk) (Fmt_ctor False ''{0}{2}'') = Some (Inr False)"
    "Fmt_ctor True ''{0}{2}'' = Some (Inl Crash)"
    "map_option (map_sum id isOk) (Fmt_ctor False ''{0}{1}{0}'') = Some (Inr True)"
    "map_option (map_sum id isOk) (Fmt_ctor True ''{0}{1}{0}'') = Some (Inr True)"
    by code_simp+
  from c n d nc e show ?thesis
    by (intro conjI)
qed

subsection \<open>The type check\<close>

text \<open>
  C8. At an instruction that is not a literal and whose argument is in range, the type
  check of \<^verbatim>\<open>Eval\<close> succeeds exactly when the instruction is \<^verbatim>\<open>Any\<close>, or \<^verbatim>\<open>Char\<close> with a
  \<^verbatim>\<open>Char\<close> argument, or \<^verbatim>\<open>Int\<close> with an \<^verbatim>\<open>Int\<close> argument, or \<^verbatim>\<open>Float\<close> with a \<^verbatim>\<open>Float\<close>
  or \<^verbatim>\<open>Double\<close> argument, or \<^verbatim>\<open>Str\<close> with a \<^verbatim>\<open>Str\<close> or \<^verbatim>\<open>WStr\<close> argument. Then the loop
  appends the text of the argument as its own type gives it and goes on. In every other
  case the evaluation ends at once: \<open>isOk\<close> is set to false, nothing is appended, and
  \<^verbatim>\<open>Eval\<close> returns false (a build with \<^verbatim>\<open>CrashIf\<close> active stops at \<^verbatim>\<open>CrashIf(!isOk)\<close>, the
  statement after the assignment).
\<close>

theorem Eval_type_check:
  assumes "n < nInst fm" and "n < dimof_instructions" and "n < length (instructions fm)"
    and "inst_t (instructions fm ! n) \<noteq> TFormatStr"
    and "0 \<le> argNo (instructions fm ! n)" and "argNo (instructions fm ! n) < nArgs"
    and "nArgs \<le> int (length args)"
  shows "Eval_loop dbg L args nArgs fm n =
     (if inst_t (instructions fm ! n) = TAny
         \<or> inst_t (instructions fm ! n) = TChar
             \<and> arg_t (args ! nat (argNo (instructions fm ! n))) = TChar
         \<or> inst_t (instructions fm ! n) = TInt
             \<and> arg_t (args ! nat (argNo (instructions fm ! n))) = TInt
         \<or> inst_t (instructions fm ! n) = TFloat
             \<and> (arg_t (args ! nat (argNo (instructions fm ! n))) = TFloat
                \<or> arg_t (args ! nat (argNo (instructions fm ! n))) = TDouble)
         \<or> inst_t (instructions fm ! n) = TStr
             \<and> (arg_t (args ! nat (argNo (instructions fm ! n))) = TStr
                \<or> arg_t (args ! nat (argNo (instructions fm ! n))) = TWStr)
      then Eval_loop dbg L args nArgs
             (fm\<lparr>isOk := True,
                 res := res fm @ Eval_switch L (args ! nat (argNo (instructions fm ! n)))\<rparr>) (n + 1)
      else if dbg then Inl Crash
      else Inr (False, fm\<lparr>isOk := False\<rparr>))"
  using assms
  by (subst Eval_loop.simps) (auto simp: CrashIf_def)

text \<open>
  The instance: instruction 1 of \<open>a%d\<close>, an \<^verbatim>\<open>Int\<close> directive, with a \<^verbatim>\<open>Str\<close> argument
  (refused) and with an \<^verbatim>\<open>Int\<close> argument (accepted).
\<close>

theorem Eval_type_check_witness:
  "(1::nat) < nInst prog_a_d \<and> (1::nat) < dimof_instructions
   \<and> 1 < length (instructions prog_a_d)
   \<and> inst_t (instructions prog_a_d ! 1) \<noteq> TFormatStr
   \<and> 0 \<le> argNo (instructions prog_a_d ! 1) \<and> argNo (instructions prog_a_d ! 1) < 1
   \<and> (1::int) \<le> int (length [ArgStr ''x''])
   \<and> Eval_loop False lib0 [ArgStr ''x''] 1 prog_a_d 1 = Inr (False, prog_a_d\<lparr>isOk := False\<rparr>)
   \<and> Eval_loop True lib0 [ArgStr ''x''] 1 prog_a_d 1 = Inl Crash
   \<and> Eval_loop False lib0 [ArgInt 5] 1 prog_a_d 1
       = Eval_loop False lib0 [ArgInt 5] 1 (prog_a_d\<lparr>isOk := True, res := ''5''\<rparr>) (1 + 1)"
proof -
  have h: "(1::nat) < nInst prog_a_d" "(1::nat) < dimof_instructions"
    "1 < length (instructions prog_a_d)"
    "inst_t (instructions prog_a_d ! 1) \<noteq> TFormatStr"
    "0 \<le> argNo (instructions prog_a_d ! 1)" "argNo (instructions prog_a_d ! 1) < 1"
    by (simp_all add: prog_a_d_def Fmt0_def dimof_instructions_def)
  have l: "(1::int) \<le> int (length [ArgStr ''x''])" "(1::int) \<le> int (length [ArgInt 5])"
    by simp_all
  have v: "instructions prog_a_d ! 1 = \<lparr>inst_t = TInt, argNo = 0, sv = (0, 0)\<rparr>"
    "instructions prog_a_d ! Suc 0 = \<lparr>inst_t = TInt, argNo = 0, sv = (0, 0)\<rparr>"
    "res prog_a_d = []"
    by (simp_all add: prog_a_d_def Fmt0_def)
  have s: "Eval_switch lib0 (ArgInt 5) = ''5''"
    by code_simp
  from Eval_type_check [OF h l(1), of False lib0]
  have 1: "Eval_loop False lib0 [ArgStr ''x''] 1 prog_a_d 1 = Inr (False, prog_a_d\<lparr>isOk := False\<rparr>)"
    by (simp add: v)
  from Eval_type_check [OF h l(1), of True lib0]
  have 2: "Eval_loop True lib0 [ArgStr ''x''] 1 prog_a_d 1 = Inl Crash"
    by (simp add: v)
  from Eval_type_check [OF h l(2), of False lib0]
  have 3: "Eval_loop False lib0 [ArgInt 5] 1 prog_a_d 1
       = Eval_loop False lib0 [ArgInt 5] 1 (prog_a_d\<lparr>isOk := True, res := ''5''\<rparr>) (1 + 1)"
    using s by (simp add: v)
  from h l 1 2 3 show ?thesis
    by simp
qed

subsection \<open>Literal instructions\<close>

lemma Eval_loop_literal:
  assumes "n < nInst fm" and "insts_ok fm" and "inst_t (instructions fm ! n) = TFormatStr"
    and "0 \<le> nArgs"
  shows "Eval_loop dbg L args nArgs fm n =
     Eval_loop dbg L args nArgs
       (fm\<lparr>res := res fm @ sv_text (format fm) (sv (instructions fm ! n))\<rparr>) (n + 1)"
  using assms
  by (subst Eval_loop.simps) (auto simp: CrashIf_def insts_ok_def)

text \<open>
  C9. Every \<^verbatim>\<open>FormatStr\<close> instruction of a compiled program has \<open>argNo = -1\<close> and a slice
  that is not empty (its text has the length the instruction records, which is positive);
  \<^verbatim>\<open>addFormatStr\<close> with an empty run leaves the program as it is.
  So with \<open>nArgs \<ge> 1\<close> the check \<^verbatim>\<open>argNo >= nArgs\<close> does not fail at such an instruction:
  the loop of \<^verbatim>\<open>Eval\<close> appends the slice and goes on to the next instruction, whatever
  \<open>isOk\<close> and \<open>res\<close> are at that point.
\<close>

theorem FormatStr_instructions:
  assumes "Fmt_ctor dbg s = Some (Inr fm)" and "i < nInst fm"
    and "inst_t (instructions fm ! i) = TFormatStr" and "1 \<le> nArgs"
  shows "argNo (instructions fm ! i) = - 1
       \<and> sv_text (format fm) (sv (instructions fm ! i)) \<noteq> []
       \<and> length (sv_text (format fm) (sv (instructions fm ! i))) = snd (sv (instructions fm ! i))
       \<and> addFormatStr dbg' fm' s' 0 = Inr fm'
       \<and> \<not> argNo (instructions fm ! i) \<ge> nArgs
       \<and> Eval_loop dbg' L args nArgs (fm\<lparr>isOk := ok, res := r\<rparr>) i
           = Eval_loop dbg' L args nArgs
               (fm\<lparr>isOk := ok, res := r @ sv_text (format fm) (sv (instructions fm ! i))\<rparr>) (i + 1)"
proof -
  from Fmt_ctor_inv [OF assms(1)] have ok: "insts_ok fm"
    by simp
  with assms(2,3) have a: "argNo (instructions fm ! i) = - 1"
    and p: "0 < snd (sv (instructions fm ! i))"
    and b: "fst (sv (instructions fm ! i)) + snd (sv (instructions fm ! i)) \<le> length (format fm)"
    by (simp_all add: insts_ok_def)
  from p b have len: "length (sv_text (format fm) (sv (instructions fm ! i))) = snd (sv (instructions fm ! i))"
    by (simp add: sv_text_def)
  with p have ne: "sv_text (format fm) (sv (instructions fm ! i)) \<noteq> []"
    by auto
  from ok have ok': "insts_ok (fm\<lparr>isOk := ok, res := r\<rparr>)"
    by (simp add: insts_ok_def)
  from Eval_loop_literal [OF _ ok', of i nArgs dbg' L args] assms(2,3,4)
  have "Eval_loop dbg' L args nArgs (fm\<lparr>isOk := ok, res := r\<rparr>) i
           = Eval_loop dbg' L args nArgs
               (fm\<lparr>isOk := ok, res := r @ sv_text (format fm) (sv (instructions fm ! i))\<rparr>) (i + 1)"
    by simp
  with a ne len assms(4) show ?thesis
    by (simp add: addFormatStr_def)
qed

text \<open>The instance: instruction 0 of \<open>a%d\<close>, the literal \<open>a\<close>.\<close>

theorem FormatStr_instructions_witness:
  "Fmt_ctor False ''a%d'' = Some (Inr prog_a_d) \<and> 0 < nInst prog_a_d
   \<and> inst_t (instructions prog_a_d ! 0) = TFormatStr \<and> (1::int) \<le> 1
   \<and> argNo (instructions prog_a_d ! 0) = - 1
   \<and> sv_text (format prog_a_d) (sv (instructions prog_a_d ! 0)) = ''a''
   \<and> \<not> argNo (instructions prog_a_d ! 0) \<ge> 1
   \<and> Eval_loop True lib0 [ArgInt 5] 1 (prog_a_d\<lparr>isOk := True, res := []\<rparr>) 0
       = Eval_loop True lib0 [ArgInt 5] 1 (prog_a_d\<lparr>isOk := True, res := ''a''\<rparr>) (0 + 1)"
proof -
  have c: "Fmt_ctor False ''a%d'' = Some (Inr prog_a_d)"
    by code_simp
  have h: "0 < nInst prog_a_d" "inst_t (instructions prog_a_d ! 0) = TFormatStr"
    by (simp_all add: prog_a_d_def Fmt0_def)
  have t: "sv_text (format prog_a_d) (sv (instructions prog_a_d ! 0)) = ''a''"
    by (simp add: prog_a_d_def Fmt0_def sv_text_def)
  have "(1::int) \<le> 1"
    by simp
  from FormatStr_instructions [OF c h this, where dbg' = True and L = lib0 and args = "[ArgInt 5]"
      and ok = True and r = "[]"] c h t
  show ?thesis
    by simp
qed

subsection \<open>Dropping the trailing \<^verbatim>\<open>None\<close> arguments\<close>

text \<open>
  C10. The claim: the trimming loop reads no position before the start of the array and
  ends with \<open>nArgs \<ge> 0\<close>, also when every argument is \<^verbatim>\<open>None\<close>. The loop tests
  \<^verbatim>\<open>nArgs >= 0\<close> where it needs \<^verbatim>\<open>nArgs > 0\<close>: with six \<^verbatim>\<open>None\<close> arguments it reaches
  \<open>nArgs = 0\<close> and reads \<^verbatim>\<open>args[-1]\<close>, and \<^verbatim>\<open>FormatTemp\<close> called with \<open>nArgs = 0\<close> reads
  \<^verbatim>\<open>args[-1]\<close> at once.
\<close>

theorem trim_loop_reads_before_the_array:
  "trim_loop [ArgNone, ArgNone, ArgNone, ArgNone, ArgNone, ArgNone] 6 = Inl ReadBeforeArray
   \<and> Format dbg L s ArgNone ArgNone ArgNone ArgNone ArgNone ArgNone = Some (Inl ReadBeforeArray)
   \<and> FormatTemp dbg L s args 0 = Some (Inl ReadBeforeArray)"
proof -
  have 0: "trim_loop a 0 = Inl ReadBeforeArray" for a
    by (subst trim_loop.simps) simp
  have 6: "trim_loop [ArgNone, ArgNone, ArgNone, ArgNone, ArgNone, ArgNone] 6 = Inl ReadBeforeArray"
    by code_simp
  from 0 6 show ?thesis
    by (simp add: Format_def FormatTemp_def CrashIf_def)
qed

end
